theory Spec2Isabelle
  imports Complex_Main "HOL-Library.Word"
begin

section \<open>JavaScript strings\<close>

text \<open>
  A JavaScript string is a sequence of UTF-16 code units. The regular expressions of the
  source carry no \<^verbatim>\<open>u\<close> flag, and \<^verbatim>\<open>slice\<close>, \<^verbatim>\<open>length\<close> and \<^verbatim>\<open>trim\<close> count
  code units, so a string is modelled as a list of 16-bit words.
\<close>

type_synonym jschar = "16 word"
type_synonym jsstring = "jschar list"

definition cu :: "char \<Rightarrow> jschar" where
  "cu c = of_nat (of_char c)"

definition js :: "string \<Rightarrow> jsstring" where
  "js s = map cu s"

text \<open>\<^verbatim>\<open>\d\<close> is \<^verbatim>\<open>[0-9]\<close>; \<^verbatim>\<open>\D\<close> is its complement.\<close>

definition is_digit :: "jschar \<Rightarrow> bool" where
  "is_digit c = (0x30 \<le> c \<and> c \<le> 0x39)"

text \<open>
  \<^verbatim>\<open>\s\<close> and \<^verbatim>\<open>String.prototype.trim\<close> use the same set: ECMAScript WhiteSpace
  (TAB, VT, FF, SP, NBSP, ZWNBSP and the Unicode space separators) and LineTerminator
  (LF, CR, LS, PS).
\<close>

definition is_ws :: "jschar \<Rightarrow> bool" where
  "is_ws c = (c \<in> {0x09, 0x0A, 0x0B, 0x0C, 0x0D, 0x20, 0xA0, 0x1680,
                    0x2028, 0x2029, 0x202F, 0x205F, 0x3000, 0xFEFF}
              \<or> (0x2000 \<le> c \<and> c \<le> 0x200A))"

text \<open>\<^verbatim>\<open>.\<close> without the \<^verbatim>\<open>s\<close> flag matches every code unit but a LineTerminator.\<close>

definition is_line_terminator :: "jschar \<Rightarrow> bool" where
  "is_line_terminator c = (c \<in> {0x0A, 0x0D, 0x2028, 0x2029})"

definition trim :: "jsstring \<Rightarrow> jsstring" where
  "trim s = rev (dropWhile is_ws (rev (dropWhile is_ws s)))"

section \<open>Regular expressions\<close>

text \<open>
  The patterns of the source use character classes, sequence, \<^verbatim>\<open>?\<close> and \<^verbatim>\<open>+\<close> only
  (no back-references, no look-around), so \<^verbatim>\<open>RegExp.prototype.test\<close> answers whether
  some match exists. Matching is computed with derivatives.
\<close>

datatype rx =
    Never
  | Empty
  | One "jschar \<Rightarrow> bool"
  | Then rx rx
  | Or rx rx
  | Many rx

definition Plus :: "rx \<Rightarrow> rx" where
  "Plus r = Then r (Many r)"

definition Opt :: "rx \<Rightarrow> rx" where
  "Opt r = Or r Empty"

fun nullable :: "rx \<Rightarrow> bool" where
  "nullable Never = False"
| "nullable Empty = True"
| "nullable (One p) = False"
| "nullable (Then r s) = (nullable r \<and> nullable s)"
| "nullable (Or r s) = (nullable r \<or> nullable s)"
| "nullable (Many r) = True"

fun deriv :: "jschar \<Rightarrow> rx \<Rightarrow> rx" where
  "deriv c Never = Never"
| "deriv c Empty = Never"
| "deriv c (One p) = (if p c then Empty else Never)"
| "deriv c (Then r s) =
     (if nullable r then Or (Then (deriv c r) s) (deriv c s) else Then (deriv c r) s)"
| "deriv c (Or r s) = Or (deriv c r) (deriv c s)"
| "deriv c (Many r) = Then (deriv c r) (Many r)"

text \<open>\<^verbatim>\<open>/^r$/.test(s)\<close>: the whole of \<open>s\<close> matches \<open>r\<close>.\<close>

fun matches :: "rx \<Rightarrow> jsstring \<Rightarrow> bool" where
  "matches r [] = nullable r"
| "matches r (c # cs) = matches (deriv c r) cs"

text \<open>\<^verbatim>\<open>/^r/.test(s)\<close>: some prefix of \<open>s\<close> matches \<open>r\<close>.\<close>

fun matches_prefix :: "rx \<Rightarrow> jsstring \<Rightarrow> bool" where
  "matches_prefix r [] = nullable r"
| "matches_prefix r (c # cs) = (nullable r \<or> matches_prefix (deriv c r) cs)"

text \<open>
  The meaning of a pattern as a set of strings, against which the matcher is verified
  below.
\<close>

inductive_set star :: "jsstring set \<Rightarrow> jsstring set" for L :: "jsstring set" where
  star_empty: "[] \<in> star L"
| star_more: "u \<in> L \<Longrightarrow> v \<in> star L \<Longrightarrow> u @ v \<in> star L"

fun lang :: "rx \<Rightarrow> jsstring set" where
  "lang Never = {}"
| "lang Empty = {[]}"
| "lang (One p) = {[c] |c. p c}"
| "lang (Then r s) = {u @ v |u v. u \<in> lang r \<and> v \<in> lang s}"
| "lang (Or r s) = lang r \<union> lang s"
| "lang (Many r) = star (lang r)"

section \<open>The lead form: normalising and validating\<close>

record FormValues =
  fullName :: jsstring
  phoneNumber :: jsstring
  email :: jsstring
  storeUrl :: jsstring
  revenueStream :: jsstring
  message :: jsstring

datatype field = FullName | PhoneNumber | Email | StoreUrl | RevenueStream | Message

text \<open>
  \<^verbatim>\<open>Partial<Record<keyof FormValues, string>>\<close> as built by \<^verbatim>\<open>validateForm\<close>: the
  keys in the order they are assigned, each at most once.
\<close>

type_synonym FormErrors = "(field \<times> jsstring) list"

definition initialFormValues :: FormValues where
  "initialFormValues =
     \<lparr>fullName = [], phoneNumber = [], email = [], storeUrl = [], revenueStream = [],
      message = []\<rparr>"

text \<open>\<^verbatim>\<open>value.replace(/\D/g, "").slice(0, 10)\<close>\<close>

definition getPhoneDigits :: "jsstring \<Rightarrow> jsstring" where
  "getPhoneDigits v = take 10 (filter is_digit v)"

definition formatPhoneNumber :: "jsstring \<Rightarrow> jsstring" where
  "formatPhoneNumber v =
     (let digits = getPhoneDigits v in
      if length digits \<le> 3 then digits
      else if length digits \<le> 6 then
        js ''('' @ take 3 digits @ js '') '' @ drop 3 digits
      else
        js ''('' @ take 3 digits @ js '') '' @ take 3 (drop 3 digits) @ js ''-''
          @ take 4 (drop 6 digits))"

text \<open>\<^verbatim>\<open>/^[^\s@]+@[^\s@]+\.[^\s@]+$/\<close>\<close>

definition email_char :: "jschar \<Rightarrow> bool" where
  "email_char c = (\<not> is_ws c \<and> c \<noteq> cu CHR ''@'')"

definition email_rx :: rx where
  "email_rx =
     Then (Plus (One email_char))
       (Then (One (\<lambda>c. c = cu CHR ''@''))
         (Then (Plus (One email_char))
           (Then (One (\<lambda>c. c = cu CHR ''.''))
             (Plus (One email_char)))))"

definition isValidEmail :: "jsstring \<Rightarrow> bool" where
  "isValidEmail v = matches email_rx (trim v)"

text \<open>
  \<^verbatim>\<open>/^https?:\/\/.+/i\<close>. Without the \<^verbatim>\<open>u\<close> flag, case-insensitive matching never
  identifies a non-ASCII code unit with an ASCII letter, so each letter matches its two
  ASCII cases only.
\<close>

definition ci :: "char \<Rightarrow> char \<Rightarrow> rx" where
  "ci l u = One (\<lambda>c. c = cu l \<or> c = cu u)"

definition store_url_rx :: rx where
  "store_url_rx =
     Then (ci CHR ''h'' CHR ''H'')
       (Then (ci CHR ''t'' CHR ''T'')
         (Then (ci CHR ''t'' CHR ''T'')
           (Then (ci CHR ''p'' CHR ''P'')
             (Then (Opt (ci CHR ''s'' CHR ''S''))
               (Then (One (\<lambda>c. c = cu CHR '':''))
                 (Then (One (\<lambda>c. c = cu CHR ''/''))
                   (Then (One (\<lambda>c. c = cu CHR ''/''))
                     (Plus (One (\<lambda>c. \<not> is_line_terminator c))))))))))"

definition isValidStoreUrl :: "jsstring \<Rightarrow> bool" where
  "isValidStoreUrl v = matches_prefix store_url_rx (trim v)"

definition validateForm :: "FormValues \<Rightarrow> FormErrors" where
  "validateForm v =
     (if trim (fullName v) = [] then [(FullName, js ''Full name is required.'')] else [])
     @ (if trim (phoneNumber v) = [] then [(PhoneNumber, js ''Phone number is required.'')]
        else if length (getPhoneDigits (phoneNumber v)) \<noteq> 10
          then [(PhoneNumber, js ''Enter a valid 10-digit phone number.'')]
        else [])
     @ (if trim (email v) = [] then [(Email, js ''Email is required.'')]
        else if \<not> isValidEmail (email v) then [(Email, js ''Please enter a valid email.'')]
        else [])
     @ (if trim (storeUrl v) \<noteq> [] \<and> \<not> isValidStoreUrl (storeUrl v)
          then [(StoreUrl, js ''Use a full URL, including https://'')]
        else [])
     @ (if revenueStream v = [] then [(RevenueStream, js ''Select your revenue stream.'')]
        else [])"

definition isFormReady :: "FormValues \<Rightarrow> bool" where
  "isFormReady v =
     (length (trim (fullName v)) > 0
      \<and> length (getPhoneDigits (phoneNumber v)) = 10
      \<and> isValidEmail (email v)
      \<and> (trim (storeUrl v) = [] \<or> isValidStoreUrl (storeUrl v))
      \<and> length (trim (revenueStream v)) > 0)"

section \<open>The lead form: state and submission\<close>

text \<open>
  The state of \<^verbatim>\<open>LeadForm\<close>: its five \<^verbatim>\<open>useState\<close> cells. In \<open>errors\<close> a key
  that is missing and a key set to \<^verbatim>\<open>undefined\<close> both read as \<open>None\<close>.
\<close>

record form_state =
  "values" :: FormValues
  errors :: "field \<Rightarrow> jsstring option"
  isSubmitting :: bool
  submitted :: bool
  submitError :: "jsstring option"

definition initial_form_state :: form_state where
  "initial_form_state =
     \<lparr>values = initialFormValues, errors = (\<lambda>_. None), isSubmitting = False,
      submitted = False, submitError = None\<rparr>"

fun set_value :: "field \<Rightarrow> jsstring \<Rightarrow> FormValues \<Rightarrow> FormValues" where
  "set_value FullName x v = v\<lparr>fullName := x\<rparr>"
| "set_value PhoneNumber x v = v\<lparr>phoneNumber := x\<rparr>"
| "set_value Email x v = v\<lparr>email := x\<rparr>"
| "set_value StoreUrl x v = v\<lparr>storeUrl := x\<rparr>"
| "set_value RevenueStream x v = v\<lparr>revenueStream := x\<rparr>"
| "set_value Message x v = v\<lparr>message := x\<rparr>"

definition handleChange :: "field \<Rightarrow> jsstring \<Rightarrow> form_state \<Rightarrow> form_state" where
  "handleChange key val st =
     (let nextValue = (if key = PhoneNumber then formatPhoneNumber val else val) in
      st\<lparr>values := set_value key nextValue (values st),
         errors := (errors st)(key := None),
         submitError := None\<rparr>)"

text \<open>The \<^verbatim>\<open>disabled\<close> attribute of the submit button.\<close>

definition submit_disabled :: "form_state \<Rightarrow> bool" where
  "submit_disabled st = (isSubmitting st \<or> \<not> isFormReady (values st))"

text \<open>
  A value that \<^verbatim>\<open>catch\<close> receives: an instance of \<^verbatim>\<open>Error\<close> with its message, or
  anything else.
\<close>

datatype 'm thrown = ErrorObj 'm | NonError

text \<open>
  What the client sees of a response: the status, and the payload as the source casts it,
  \<^verbatim>\<open>{ error?: string } | null\<close>. The payload is \<open>None\<close> for \<^verbatim>\<open>null\<close> (also when the
  body is not JSON, by \<^verbatim>\<open>.catch(() => null)\<close>), \<open>Some None\<close> for an object without
  \<^verbatim>\<open>error\<close>, \<open>Some (Some e)\<close> for an object with the text \<open>e\<close>.
\<close>

record response =
  status :: nat
  payload :: "jsstring option option"

text \<open>\<^verbatim>\<open>Response.ok\<close>: the status is in the range 200 to 299.\<close>

definition response_ok :: "response \<Rightarrow> bool" where
  "response_ok r = (200 \<le> status r \<and> status r \<le> 299)"

text \<open>\<^verbatim>\<open>fetch\<close> either resolves with a response or rejects.\<close>

datatype fetch_outcome = Responded response | Rejected "jsstring thrown"

text \<open>\<^verbatim>\<open>payload?.error || "Request failed"\<close>\<close>

definition request_failed_message :: "jsstring option option \<Rightarrow> jsstring" where
  "request_failed_message p =
     (case p of
        Some (Some e) \<Rightarrow> if e \<noteq> [] then e else js ''Request failed''
      | _ \<Rightarrow> js ''Request failed'')"

text \<open>
  \<^verbatim>\<open>handleSubmit\<close> up to its \<^verbatim>\<open>await fetch(...)\<close>: the new state, and the values sent
  as the request body when a request is issued.
\<close>

definition handleSubmit_start :: "form_state \<Rightarrow> form_state \<times> FormValues option" where
  "handleSubmit_start st =
     (let validationErrors = validateForm (values st);
          st1 = st\<lparr>errors := map_of validationErrors\<rparr>
      in if validationErrors \<noteq> [] then (st1, None)
         else (st1\<lparr>isSubmitting := True, submitError := None\<rparr>, Some (values st)))"

text \<open>
  \<^verbatim>\<open>handleSubmit\<close> from the point where \<^verbatim>\<open>fetch\<close> settles: the \<^verbatim>\<open>try\<close> body, the
  \<^verbatim>\<open>catch\<close> clause and the \<^verbatim>\<open>finally\<close> clause.
\<close>

definition catch_message :: "jsstring thrown \<Rightarrow> jsstring" where
  "catch_message t =
     (case t of
        ErrorObj m \<Rightarrow> m
      | NonError \<Rightarrow> js ''Something went wrong. Please try again in a moment.'')"

definition handleSubmit_settle :: "form_state \<Rightarrow> fetch_outcome \<Rightarrow> form_state" where
  "handleSubmit_settle st outcome =
     (let st1 =
        (case outcome of
           Responded r \<Rightarrow>
             if \<not> response_ok r
             then st\<lparr>submitError :=
                      Some (catch_message (ErrorObj (request_failed_message (payload r))))\<rparr>
             else st\<lparr>submitted := True, values := initialFormValues\<rparr>
         | Rejected t \<Rightarrow> st\<lparr>submitError := Some (catch_message t)\<rparr>)
      in st1\<lparr>isSubmitting := False\<rparr>)"

text \<open>
  The form as a transition system. \<open>in_flight\<close> counts the requests issued and not yet
  settled. A submit event reaches \<^verbatim>\<open>handleSubmit\<close> only while the form is rendered
  (\<open>submitted\<close> is false) and its submit button is not disabled; field edits are possible
  whenever the form is rendered.
\<close>

record ui_state =
  form :: form_state
  in_flight :: nat

definition initial_ui :: ui_state where
  "initial_ui = \<lparr>form = initial_form_state, in_flight = 0\<rparr>"

inductive ui_step :: "ui_state \<Rightarrow> ui_state \<Rightarrow> bool" where
  change:
    "\<not> submitted (form s) \<Longrightarrow>
     ui_step s (s\<lparr>form := handleChange key val (form s)\<rparr>)"
| submit:
    "\<not> submitted (form s) \<Longrightarrow> \<not> submit_disabled (form s) \<Longrightarrow>
     handleSubmit_start (form s) = (st', req) \<Longrightarrow>
     ui_step s \<lparr>form = st', in_flight = in_flight s + (if req = None then 0 else 1)\<rparr>"
| settle:
    "in_flight s > 0 \<Longrightarrow>
     ui_step s \<lparr>form = handleSubmit_settle (form s) outcome, in_flight = in_flight s - 1\<rparr>"

inductive reachable :: "ui_state \<Rightarrow> bool" where
  init: "reachable initial_ui"
| step: "reachable s \<Longrightarrow> ui_step s s' \<Longrightarrow> reachable s'"

section \<open>The intake endpoint\<close>

text \<open>
  The value \<^verbatim>\<open>request.json()\<close> resolves to. The cast to \<^verbatim>\<open>LeadPayload\<close> checks
  nothing at run time, so the handler runs on any JSON value.
\<close>

datatype json =
    JNull
  | JBool bool
  | JNum rat
  | JStr jsstring
  | JArr "json list"
  | JObj "(jsstring \<times> json) list"

definition field_name :: "field \<Rightarrow> jsstring" where
  "field_name f =
     (case f of
        FullName \<Rightarrow> js ''fullName''
      | PhoneNumber \<Rightarrow> js ''phoneNumber''
      | Email \<Rightarrow> js ''email''
      | StoreUrl \<Rightarrow> js ''storeUrl''
      | RevenueStream \<Rightarrow> js ''revenueStream''
      | Message \<Rightarrow> js ''message'')"

text \<open>
  The member of a JSON value under one of the six names: of an object, the last member of
  that name (\<^verbatim>\<open>JSON.parse\<close> keeps the last duplicate); any other value has none.
\<close>

definition member :: "json \<Rightarrow> field \<Rightarrow> json option" where
  "member body f =
     (case body of
        JObj kvs \<Rightarrow> map_of (rev kvs) (field_name f)
      | _ \<Rightarrow> None)"

text \<open>
  The messages of the \<^verbatim>\<open>TypeError\<close>s that the engine raises inside the handler are
  engine-defined text, kept symbolic.
\<close>

datatype engine_error = ReadPropertyOfNull field | NotAFunction field

datatype error_text = Text jsstring | EngineText engine_error

text \<open>
  \<^verbatim>\<open>body.f\<close>: reading a property of \<^verbatim>\<open>null\<close> throws; an object gives its member;
  a boolean, number, string or array has no property of these six names.
\<close>

definition read_property :: "json \<Rightarrow> field \<Rightarrow> error_text thrown + json option" where
  "read_property body f =
     (case body of
        JNull \<Rightarrow> Inl (ErrorObj (EngineText (ReadPropertyOfNull f)))
      | _ \<Rightarrow> Inr (member body f))"

text \<open>
  \<^verbatim>\<open>body.f?.trim() ?? ""\<close>: \<^verbatim>\<open>undefined\<close> and \<^verbatim>\<open>null\<close> give the empty string, a
  string is trimmed, and any other value has no callable \<^verbatim>\<open>trim\<close>, so the call throws.
\<close>

definition trimmed_field :: "json \<Rightarrow> field \<Rightarrow> error_text thrown + jsstring" where
  "trimmed_field body f =
     (case read_property body f of
        Inl t \<Rightarrow> Inl t
      | Inr None \<Rightarrow> Inr []
      | Inr (Some JNull) \<Rightarrow> Inr []
      | Inr (Some (JStr s)) \<Rightarrow> Inr (trim s)
      | Inr (Some _) \<Rightarrow> Inl (ErrorObj (EngineText (NotAFunction f))))"

text \<open>A statement that may throw, followed by the rest of the block.\<close>

definition and_then :: "'e + 'a \<Rightarrow> ('a \<Rightarrow> 'e + 'b) \<Rightarrow> 'e + 'b" where
  "and_then r k = (case r of Inl t \<Rightarrow> Inl t | Inr x \<Rightarrow> k x)"

text \<open>Lines 24 to 29 of the handler, in their order; the first throw ends them.\<close>

definition read_payload :: "json \<Rightarrow> error_text thrown + FormValues" where
  "read_payload body =
     and_then (trimmed_field body FullName) (\<lambda>fullName'.
     and_then (trimmed_field body PhoneNumber) (\<lambda>phoneNumber'.
     and_then (trimmed_field body Email) (\<lambda>email'.
     and_then (trimmed_field body StoreUrl) (\<lambda>storeUrl'.
     and_then (trimmed_field body RevenueStream) (\<lambda>revenueStream'.
     and_then (trimmed_field body Message) (\<lambda>message'.
       Inr \<lparr>fullName = fullName', phoneNumber = phoneNumber', email = email',
            storeUrl = storeUrl', revenueStream = revenueStream',
            message = message'\<rparr>))))))"

text \<open>The server environment: the two variables the handler reads.\<close>

record env =
  RESEND_API_KEY :: "jsstring option"
  NEXT_PUBLIC_RESEND_API_KEY :: "jsstring option"

text \<open>
  \<^verbatim>\<open>process.env.RESEND_API_KEY || process.env.NEXT_PUBLIC_RESEND_API_KEY\<close>: the first
  operand when it is truthy (a non-empty string), the second otherwise.
\<close>

definition resendApiKey :: "env \<Rightarrow> jsstring option" where
  "resendApiKey e =
     (case RESEND_API_KEY e of
        Some k \<Rightarrow> if k \<noteq> [] then Some k else NEXT_PUBLIC_RESEND_API_KEY e
      | None \<Rightarrow> NEXT_PUBLIC_RESEND_API_KEY e)"

text \<open>The argument of \<^verbatim>\<open>resend.emails.send\<close>, with the key the client was built with.\<close>

record send_request =
  apiKey :: jsstring
  sender :: jsstring
  recipients :: "jsstring list"
  subject :: jsstring
  replyTo :: jsstring
  text_body :: jsstring
  html_body :: jsstring

text \<open>\<^verbatim>\<open>x || fallback\<close> on strings.\<close>

definition or_else :: "jsstring \<Rightarrow> jsstring \<Rightarrow> jsstring" where
  "or_else x fallback = (if x \<noteq> [] then x else fallback)"

text \<open>\<^verbatim>\<open>lines.join("\n")\<close>\<close>

fun join_lines :: "jsstring list \<Rightarrow> jsstring" where
  "join_lines [] = []"
| "join_lines [l] = l"
| "join_lines (l # ls) = l @ js ''\<newline>'' @ join_lines ls"

definition lead_email :: "jsstring \<Rightarrow> FormValues \<Rightarrow> send_request" where
  "lead_email key v =
     \<lparr>apiKey = key,
      sender = js ''onboarding@resend.dev'',
      recipients = [js ''timothytitenokspam@gmail.com''],
      subject = js ''New Stratova call request: '' @ fullName v,
      replyTo = email v,
      text_body = join_lines
        [js ''New book a call request'',
         js ''Full name: '' @ fullName v,
         js ''Phone number: '' @ phoneNumber v,
         js ''Email: '' @ email v,
         js ''Store URL: '' @ or_else (storeUrl v) (js ''N/A (needs build from scratch)''),
         js ''Revenue stream: '' @ revenueStream v,
         js ''Message: '' @ or_else (message v) (js ''N/A'')],
      html_body =
        js ''\<newline>        <h2>New book a call request</h2>''
        @ js ''\<newline>        <p><strong>Full name:</strong> '' @ fullName v @ js ''</p>''
        @ js ''\<newline>        <p><strong>Phone number:</strong> '' @ phoneNumber v @ js ''</p>''
        @ js ''\<newline>        <p><strong>Email:</strong> '' @ email v @ js ''</p>''
        @ js ''\<newline>        <p><strong>Store URL:</strong> ''
        @ or_else (storeUrl v) (js ''N/A (needs build from scratch)'') @ js ''</p>''
        @ js ''\<newline>        <p><strong>Revenue stream:</strong> '' @ revenueStream v @ js ''</p>''
        @ js ''\<newline>        <p><strong>Message:</strong> '' @ or_else (message v) (js ''N/A'')
        @ js ''</p>''
        @ js ''\<newline>      ''\<rparr>"

text \<open>
  What \<^verbatim>\<open>resend.emails.send\<close> does: it resolves without an error, resolves with an
  error object (whose \<^verbatim>\<open>message\<close> is given when it is a string), or throws.
\<close>

datatype relay_result = SendOk | SendError "jsstring option" | SendThrows "error_text thrown"

datatype response_body = ErrorBody error_text | SuccessBody

record http_response =
  http_status :: nat
  http_body :: response_body

text \<open>What \<^verbatim>\<open>request.json()\<close> does: it resolves to a JSON value or throws.\<close>

datatype body_result = BodyJson json | BodyThrows "error_text thrown"

definition not_configured_response :: http_response where
  "not_configured_response =
     \<lparr>http_status = 500,
      http_body = ErrorBody (Text (js
        ''Email service is not configured. Set RESEND_API_KEY in your server environment.''))\<rparr>"

definition missing_fields_response :: http_response where
  "missing_fields_response =
     \<lparr>http_status = 400, http_body = ErrorBody (Text (js ''Missing required fields.''))\<rparr>"

definition success_response :: http_response where
  "success_response = \<lparr>http_status = 200, http_body = SuccessBody\<rparr>"

text \<open>The \<^verbatim>\<open>catch\<close> clause of the handler.\<close>

definition caught_response :: "error_text thrown \<Rightarrow> http_response" where
  "caught_response t =
     \<lparr>http_status = 500,
      http_body = ErrorBody
        (case t of ErrorObj m \<Rightarrow> m | NonError \<Rightarrow> Text (js ''Unable to submit request.''))\<rparr>"

definition resend_error_response :: "jsstring option \<Rightarrow> http_response" where
  "resend_error_response m =
     (let resendErrorMessage =
        (case m of
           Some s \<Rightarrow> if length s > 0 then s else js ''Unable to send email.''
         | None \<Rightarrow> js ''Unable to send email.'')
      in \<lparr>http_status = 502,
          http_body = ErrorBody (Text (js ''Resend error: '' @ resendErrorMessage))\<rparr>)"

text \<open>
  The handler after its configuration check (lines 23 to 68, and the \<^verbatim>\<open>catch\<close> clause
  for what they throw), for the key \<open>key\<close>. It returns the response and the requests it
  passed to the relay, in order.
\<close>

definition handle_request ::
  "jsstring \<Rightarrow> body_result \<Rightarrow> (send_request \<Rightarrow> relay_result) \<Rightarrow> http_response \<times> send_request list"
where
  "handle_request key request relay =
     (case request of
        BodyThrows t \<Rightarrow> (caught_response t, [])
      | BodyJson body \<Rightarrow>
          (case read_payload body of
             Inl t \<Rightarrow> (caught_response t, [])
           | Inr v \<Rightarrow>
               if fullName v = [] \<or> phoneNumber v = [] \<or> email v = [] \<or> revenueStream v = []
               then (missing_fields_response, [])
               else
                 (let mail = lead_email key v in
                  case relay mail of
                    SendThrows t \<Rightarrow> (caught_response t, [mail])
                  | SendError m \<Rightarrow> (resend_error_response m, [mail])
                  | SendOk \<Rightarrow> (success_response, [mail]))))"

text \<open>
  The handler. The configuration check comes first: the body is read only after it.
\<close>

definition POST ::
  "env \<Rightarrow> body_result \<Rightarrow> (send_request \<Rightarrow> relay_result) \<Rightarrow> http_response \<times> send_request list"
where
  "POST e request relay =
     (case resendApiKey e of
        None \<Rightarrow> (not_configured_response, [])
      | Some key \<Rightarrow>
          if key = [] then (not_configured_response, [])
          else handle_request key request relay)"

text \<open>\<^verbatim>\<open>JSON.stringify(values)\<close> as the server parses it back.\<close>

definition values_json :: "FormValues \<Rightarrow> json" where
  "values_json v =
     JObj [(js ''fullName'', JStr (fullName v)),
           (js ''phoneNumber'', JStr (phoneNumber v)),
           (js ''email'', JStr (email v)),
           (js ''storeUrl'', JStr (storeUrl v)),
           (js ''revenueStream'', JStr (revenueStream v)),
           (js ''message'', JStr (message v))]"

section \<open>Vocabulary of the properties\<close>

definition all_fields :: "field list" where
  "all_fields = [FullName, PhoneNumber, Email, StoreUrl, RevenueStream, Message]"

definition required_fields :: "field list" where
  "required_fields = [FullName, PhoneNumber, Email, RevenueStream]"

text \<open>
  A field of the body is absent (or \<^verbatim>\<open>null\<close>, which carries no text) or is a string
  that is empty after trimming.
\<close>

definition absent_or_blank :: "json \<Rightarrow> field \<Rightarrow> bool" where
  "absent_or_blank body f =
     (case member body f of
        None \<Rightarrow> True
      | Some JNull \<Rightarrow> True
      | Some (JStr s) \<Rightarrow> trim s = []
      | Some _ \<Rightarrow> False)"

text \<open>
  The body has the shape of \<^verbatim>\<open>LeadPayload\<close>: it is not \<^verbatim>\<open>null\<close>, and each of the
  six fields is absent, \<^verbatim>\<open>null\<close> or a string.
\<close>

definition text_or_missing :: "json option \<Rightarrow> bool" where
  "text_or_missing m =
     (case m of
        None \<Rightarrow> True
      | Some JNull \<Rightarrow> True
      | Some (JStr s) \<Rightarrow> True
      | Some _ \<Rightarrow> False)"

definition payload_typed :: "json \<Rightarrow> bool" where
  "payload_typed body = (body \<noteq> JNull \<and> (\<forall>f \<in> set all_fields. text_or_missing (member body f)))"

text \<open>The text the handler works with for a field of a body of that shape.\<close>

definition field_text :: "json \<Rightarrow> field \<Rightarrow> jsstring" where
  "field_text body f = (case member body f of Some (JStr s) \<Rightarrow> trim s | _ \<Rightarrow> [])"


text \<open>
  A submit event can reach \<^verbatim>\<open>handleSubmit\<close>: the form is rendered and its submit
  button is enabled.
\<close>

definition submittable :: "form_state \<Rightarrow> bool" where
  "submittable st = (\<not> submitted st \<and> \<not> submit_disabled st)"

text \<open>An environment variable that is absent or empty.\<close>

definition unset :: "jsstring option \<Rightarrow> bool" where
  "unset x = (x = None \<or> x = Some [])"

text \<open>A relay that gives the same result for every request.\<close>

definition relay_const :: "relay_result \<Rightarrow> send_request \<Rightarrow> relay_result" where
  "relay_const r mail = r"

text \<open>Inputs for the concrete instances below.\<close>

definition example_lead :: FormValues where
  "example_lead =
     \<lparr>fullName = js ''Ada Lovelace'', phoneNumber = js ''(415) 555-2671'',
      email = js ''ada@example.com'', storeUrl = js ''https://ada.example'',
      revenueStream = js ''$10k - $50k/mo'', message = []\<rparr>"

definition example_env :: env where
  "example_env = \<lparr>RESEND_API_KEY = Some (js ''re_test_key''), NEXT_PUBLIC_RESEND_API_KEY = None\<rparr>"

definition numeric_phone_body :: json where
  "numeric_phone_body =
     JObj [(js ''fullName'', JStr (js ''Ada Lovelace'')),
           (js ''phoneNumber'', JNum 4155552671),
           (js ''email'', JStr (js ''ada@example.com''))]"

definition malformed_body :: json where
  "malformed_body =
     JObj [(js ''fullName'', JStr (js ''x'')),
           (js ''phoneNumber'', JStr (js ''12'')),
           (js ''email'', JStr (js ''not-an-email'')),
           (js ''storeUrl'', JStr (js ''ftp://x'')),
           (js ''revenueStream'', JStr (js ''lots''))]"

definition malformed_values :: FormValues where
  "malformed_values =
     \<lparr>fullName = js ''x'', phoneNumber = js ''12'', email = js ''not-an-email'',
      storeUrl = js ''ftp://x'', revenueStream = js ''lots'', message = []\<rparr>"

definition public_key_env :: env where
  "public_key_env = \<lparr>RESEND_API_KEY = Some [], NEXT_PUBLIC_RESEND_API_KEY = Some (js ''re_public_key'')\<rparr>"

definition no_key_env :: env where
  "no_key_env = \<lparr>RESEND_API_KEY = None, NEXT_PUBLIC_RESEND_API_KEY = Some []\<rparr>"

definition filled_form :: form_state where
  "filled_form =
     handleChange RevenueStream (js ''$10k - $50k/mo'')
       (handleChange Email (js ''ada@example.com'')
         (handleChange PhoneNumber (js ''4155552671'')
           (handleChange FullName (js ''Ada Lovelace'') initial_form_state)))"

definition submitting_form :: form_state where
  "submitting_form = fst (handleSubmit_start filled_form)"

definition filled_ui :: ui_state where
  "filled_ui = \<lparr>form = filled_form, in_flight = 0\<rparr>"

definition submitting_ui :: ui_state where
  "submitting_ui = \<lparr>form = submitting_form, in_flight = 1\<rparr>"

section \<open>Unfolding for concrete instances\<close>

lemmas eval_strings = js_def cu_def trim_def is_ws_def is_digit_def is_line_terminator_def

lemmas eval_server = POST_def handle_request_def read_payload_def and_then_def
  trimmed_field_def read_property_def member_def field_name_def resendApiKey_def
  caught_response_def missing_fields_response_def success_response_def
  resend_error_response_def not_configured_response_def relay_const_def
  absent_or_blank_def example_env_def

lemmas eval_client = validateForm_def isFormReady_def isValidEmail_def isValidStoreUrl_def
  getPhoneDigits_def email_rx_def store_url_rx_def Plus_def Opt_def ci_def email_char_def

section \<open>The matcher decides the language of a pattern\<close>

lemma nullable_lang: "nullable r \<longleftrightarrow> [] \<in> lang r"
  by (induction r) (auto intro: star_empty)

lemma star_cons_split:
  assumes "x \<in> star L" and "x = c # w"
  shows "\<exists>u v. w = u @ v \<and> c # u \<in> L \<and> v \<in> star L"
  using assms
proof (induction arbitrary: w rule: star.induct)
  case star_empty
  then show ?case by simp
next
  case (star_more u v)
  show ?case
  proof (cases u)
    case Nil
    with star_more show ?thesis by simp
  next
    case (Cons a u')
    with star_more.prems have "a = c" and "w = u' @ v" by simp_all
    with Cons star_more.hyps show ?thesis by blast
  qed
qed

lemma star_cons: "c # w \<in> star L \<longleftrightarrow> (\<exists>u v. w = u @ v \<and> c # u \<in> L \<and> v \<in> star L)"
proof
  assume "c # w \<in> star L"
  then show "\<exists>u v. w = u @ v \<and> c # u \<in> L \<and> v \<in> star L"
    by (rule star_cons_split) simp
next
  assume "\<exists>u v. w = u @ v \<and> c # u \<in> L \<and> v \<in> star L"
  then obtain u v where "w = u @ v" "c # u \<in> L" "v \<in> star L" by blast
  then show "c # w \<in> star L"
    using star_more [of "c # u" L v] by simp
qed

lemma deriv_lang: "w \<in> lang (deriv c r) \<longleftrightarrow> c # w \<in> lang r"
proof (induction r arbitrary: w)
  case (Then r s)
  show ?case
    by (auto simp: Then nullable_lang Cons_eq_append_conv)
next
  case (Many r)
  show ?case
    by (auto simp: Many star_cons)
qed auto

lemma matches_lang: "matches r w \<longleftrightarrow> w \<in> lang r"
  by (induction w arbitrary: r) (simp_all add: nullable_lang deriv_lang)

lemma matches_prefix_lang: "matches_prefix r w \<longleftrightarrow> (\<exists>u v. w = u @ v \<and> u \<in> lang r)"
proof (induction w arbitrary: r)
  case Nil
  show ?case by (simp add: nullable_lang)
next
  case (Cons c w)
  show ?case
    by (auto simp: Cons nullable_lang deriv_lang Cons_eq_append_conv)
qed

section \<open>Properties of validation\<close>

lemma digit_not_ws: "is_digit c \<Longrightarrow> \<not> is_ws c"
  unfolding is_digit_def is_ws_def
  by (auto simp: word_le_nat_alt)

lemma all_dropWhile: "(\<forall>c \<in> set (dropWhile P s). P c) \<longleftrightarrow> (\<forall>c \<in> set s. P c)"
  by (induction s) auto

lemma trim_empty_iff: "trim s = [] \<longleftrightarrow> (\<forall>c \<in> set s. is_ws c)"
  by (simp add: trim_def all_dropWhile)

lemma trim_Nil: "trim [] = []"
  by (simp add: trim_def)

lemma getPhoneDigits_blank: "trim s = [] \<Longrightarrow> getPhoneDigits s = []"
proof -
  assume "trim s = []"
  then have "\<forall>c \<in> set s. \<not> is_digit c"
    using digit_not_ws by (auto simp: trim_empty_iff)
  then have "filter is_digit s = []" by (simp add: filter_empty_conv)
  then show ?thesis by (simp add: getPhoneDigits_def)
qed

lemma email_rx_not_empty: "\<not> matches email_rx []"
  by (simp add: email_rx_def Plus_def)

lemma isValidEmail_blank: "trim s = [] \<Longrightarrow> \<not> isValidEmail s"
  using email_rx_not_empty by (simp add: isValidEmail_def)

text \<open>Readiness implies that validation finds no error.\<close>

lemma validateForm_of_ready:
  assumes "isFormReady v"
  shows "validateForm v = []"
proof -
  from assms have name: "trim (fullName v) \<noteq> []"
    and phone: "length (getPhoneDigits (phoneNumber v)) = 10"
    and mail: "isValidEmail (email v)"
    and url: "trim (storeUrl v) = [] \<or> isValidStoreUrl (storeUrl v)"
    and rev: "trim (revenueStream v) \<noteq> []"
    by (simp_all add: isFormReady_def)
  from phone have "trim (phoneNumber v) \<noteq> []"
    using getPhoneDigits_blank [of "phoneNumber v"] by auto
  moreover from mail have "trim (email v) \<noteq> []"
    using isValidEmail_blank by blast
  moreover from rev have "revenueStream v \<noteq> []"
    using trim_Nil by auto
  ultimately show ?thesis
    using name phone mail url by (auto simp: validateForm_def)
qed




lemma initial_not_ready: "\<not> isFormReady initialFormValues"
  by (simp add: isFormReady_def initialFormValues_def trim_def)




section \<open>Properties of the phone normaliser\<close>

lemma is_digit_mask_chars:
  "\<not> is_digit (cu CHR ''('')" "\<not> is_digit (cu CHR '')'')" "\<not> is_digit (cu CHR '' '')"
  "\<not> is_digit (cu CHR ''-'')"
  by (simp_all add: is_digit_def cu_def)

lemma filter_digits_getPhoneDigits:
  "filter is_digit (getPhoneDigits v) = getPhoneDigits v"
proof -
  have "\<forall>c \<in> set (take 10 (filter is_digit v)). is_digit c"
    by (auto dest: in_set_takeD)
  then show ?thesis
    unfolding getPhoneDigits_def by (simp only: filter_True)
qed

lemma filter_digits_take: "filter is_digit (take n (getPhoneDigits v)) = take n (getPhoneDigits v)"
proof -
  have "\<forall>c \<in> set (take n (getPhoneDigits v)). is_digit c"
    unfolding getPhoneDigits_def by (auto dest!: in_set_takeD)
  then show ?thesis by (simp only: filter_True)
qed

lemma filter_digits_drop: "filter is_digit (drop n (getPhoneDigits v)) = drop n (getPhoneDigits v)"
proof -
  have "\<forall>c \<in> set (drop n (getPhoneDigits v)). is_digit c"
    unfolding getPhoneDigits_def by (auto dest!: in_set_dropD in_set_takeD)
  then show ?thesis by (simp only: filter_True)
qed

lemma filter_digits_take_drop:
  "filter is_digit (take m (drop n (getPhoneDigits v))) = take m (drop n (getPhoneDigits v))"
proof -
  have "\<forall>c \<in> set (take m (drop n (getPhoneDigits v))). is_digit c"
    unfolding getPhoneDigits_def by (auto dest!: in_set_dropD in_set_takeD)
  then show ?thesis by (simp only: filter_True)
qed

lemma length_getPhoneDigits: "length (getPhoneDigits v) \<le> 10"
  by (simp add: getPhoneDigits_def)

lemma take4_drop6: "take 4 (drop 6 (getPhoneDigits v)) = drop 6 (getPhoneDigits v)"
  using length_getPhoneDigits [of v] by simp

lemma digits_of_formatPhoneNumber:
  "filter is_digit (formatPhoneNumber v) = getPhoneDigits v"
proof -
  let ?d = "getPhoneDigits v"
  have split3: "take 3 ?d @ drop 3 ?d = ?d" by simp
  have split6: "take 3 ?d @ take 3 (drop 3 ?d) @ drop 6 ?d = ?d"
    by (metis append_take_drop_id drop_drop numeral_Bit0)
  show ?thesis
    by (simp add: formatPhoneNumber_def Let_def js_def is_digit_mask_chars
        filter_digits_getPhoneDigits filter_digits_take filter_digits_drop
        filter_digits_take_drop take4_drop6 split3 split6 del: append_take_drop_id)
qed

text \<open>
  C2. For every raw input, \<^verbatim>\<open>handleChange\<close> stores the normalised value in the
  phone field, and the phone normaliser keeps exactly the first (at most ten)
  decimal digits of the input, so its output never holds more than ten digits. Up to three
  digits are returned bare; four to six digits are rendered as an opening parenthesis, the
  first three digits, a closing parenthesis, a space and the remaining one to three digits;
  seven to ten digits are rendered as the two three-digit groups of the full mask, a hyphen
  and the remaining one to four digits, which for ten digits is \<^verbatim>\<open>(AAA) BBB-CCCC\<close>.
\<close>

theorem formatPhoneNumber_mask:
  fixes raw :: jsstring
  defines "d \<equiv> take 10 (filter is_digit raw)"
  defines "out \<equiv> formatPhoneNumber raw"
  shows "phoneNumber (values (handleChange PhoneNumber raw st)) = out
    \<and> filter is_digit out = d \<and> length (filter is_digit out) \<le> 10
    \<and> (length d \<le> 3 \<longrightarrow> out = d)
    \<and> (4 \<le> length d \<and> length d \<le> 6 \<longrightarrow>
          (\<exists>a b. length a = 3 \<and> 1 \<le> length b \<and> length b \<le> 3 \<and> d = a @ b
             \<and> out = js ''('' @ a @ js '') '' @ b))
    \<and> (7 \<le> length d \<longrightarrow>
          (\<exists>a b c. length a = 3 \<and> length b = 3 \<and> 1 \<le> length c \<and> length c \<le> 4
             \<and> d = a @ b @ c \<and> (length d = 10 \<longrightarrow> length c = 4)
             \<and> out = js ''('' @ a @ js '') '' @ b @ js ''-'' @ c))"
proof -
  have d: "d = getPhoneDigits raw"
    by (simp add: d_def getPhoneDigits_def)
  have len: "length d \<le> 10"
    by (simp add: d_def)
  have digits: "filter is_digit out = d"
    unfolding out_def d by (rule digits_of_formatPhoneNumber)
  have bare: "out = d" if "length d \<le> 3"
    using that by (simp add: out_def formatPhoneNumber_def d)
  have short: "\<exists>a b. length a = 3 \<and> 1 \<le> length b \<and> length b \<le> 3 \<and> d = a @ b
      \<and> out = js ''('' @ a @ js '') '' @ b" if "4 \<le> length d" "length d \<le> 6"
  proof (intro exI conjI)
    show "length (take 3 d) = 3" using that by simp
    show "1 \<le> length (drop 3 d)" using that by simp
    show "length (drop 3 d) \<le> 3" using that by simp
    show "d = take 3 d @ drop 3 d" by simp
    show "out = js ''('' @ take 3 d @ js '') '' @ drop 3 d"
      using that by (simp add: out_def formatPhoneNumber_def d [symmetric])
  qed
  have full: "\<exists>a b c. length a = 3 \<and> length b = 3 \<and> 1 \<le> length c \<and> length c \<le> 4
      \<and> d = a @ b @ c \<and> (length d = 10 \<longrightarrow> length c = 4)
      \<and> out = js ''('' @ a @ js '') '' @ b @ js ''-'' @ c" if "7 \<le> length d"
  proof (intro exI conjI)
    show "length (take 3 d) = 3" using that by simp
    show "length (take 3 (drop 3 d)) = 3" using that by simp
    show "1 \<le> length (drop 6 d)" using that by simp
    show "length (drop 6 d) \<le> 4" using len by simp
    show "d = take 3 d @ take 3 (drop 3 d) @ drop 6 d"
      by (metis append_take_drop_id drop_drop numeral_Bit0)
    show "length d = 10 \<longrightarrow> length (drop 6 d) = 4" by simp
    show "out = js ''('' @ take 3 d @ js '') '' @ take 3 (drop 3 d) @ js ''-'' @ drop 6 d"
      using that len by (simp add: out_def formatPhoneNumber_def d [symmetric])
  qed
  have stored: "phoneNumber (values (handleChange PhoneNumber raw st)) = out"
    by (simp add: handleChange_def out_def)
  from stored digits len bare short full show ?thesis by simp
qed

theorem formatPhoneNumber_mask_witness:
  "formatPhoneNumber (js ''41'') = js ''41''
   \<and> formatPhoneNumber (js ''415-55'') = js ''(415) 55''
   \<and> formatPhoneNumber (js ''+1 (415) 555-2671 ext. 9'') = js ''(141) 555-5267''
   \<and> length (filter is_digit (formatPhoneNumber (js ''+1 (415) 555-2671 ext. 9''))) \<le> 10"
  using formatPhoneNumber_mask [of "js ''41''" initial_form_state]
    formatPhoneNumber_mask [of "js ''415-55''" initial_form_state]
    formatPhoneNumber_mask [of "js ''+1 (415) 555-2671 ext. 9''" initial_form_state]
  by (simp add: formatPhoneNumber_def getPhoneDigits_def js_def cu_def is_digit_def)

text \<open>
  C9. The phone normaliser is idempotent: normalising an already normalised value returns
  it unchanged, because the mask characters are not digits and are stripped again. So a
  change event that carries an already masked value stores that value as it is.
\<close>

theorem formatPhoneNumber_idempotent:
  "formatPhoneNumber (formatPhoneNumber s) = formatPhoneNumber s
   \<and> phoneNumber (values (handleChange PhoneNumber (formatPhoneNumber s) st))
       = formatPhoneNumber s"
proof -
  have "getPhoneDigits (formatPhoneNumber s) = getPhoneDigits s"
    using digits_of_formatPhoneNumber [of s] length_getPhoneDigits [of s]
    by (simp add: getPhoneDigits_def [of "formatPhoneNumber s"])
  then have "formatPhoneNumber (formatPhoneNumber s) = formatPhoneNumber s"
    by (simp add: formatPhoneNumber_def)
  then show ?thesis
    by (simp add: handleChange_def)
qed

section \<open>Properties of the intake endpoint\<close>

lemma trimmed_field_typed:
  assumes "payload_typed body" and "f \<in> set all_fields"
  shows "trimmed_field body f = Inr (field_text body f)"
proof -
  from assms have nn: "body \<noteq> JNull" and tm: "text_or_missing (member body f)"
    by (simp_all add: payload_typed_def)
  from nn have rp: "read_property body f = Inr (member body f)"
    by (cases body) (simp_all add: read_property_def)
  from tm show ?thesis
    by (auto simp: trimmed_field_def rp field_text_def text_or_missing_def
        split: option.splits json.splits)
qed

lemma read_payload_typed:
  assumes "payload_typed body"
  shows "read_payload body =
    Inr \<lparr>fullName = field_text body FullName, phoneNumber = field_text body PhoneNumber,
         email = field_text body Email, storeUrl = field_text body StoreUrl,
         revenueStream = field_text body RevenueStream, message = field_text body Message\<rparr>"
  using assms
  by (simp add: read_payload_def and_then_def trimmed_field_typed all_fields_def)

lemma absent_or_blank_typed:
  assumes "payload_typed body" and "f \<in> set all_fields"
  shows "absent_or_blank body f \<longleftrightarrow> field_text body f = []"
proof -
  from assms have "text_or_missing (member body f)"
    by (simp add: payload_typed_def)
  then show ?thesis
    by (auto simp: absent_or_blank_def field_text_def text_or_missing_def
        split: option.splits json.splits)
qed

lemma response_distinct:
  "caught_response t \<noteq> missing_fields_response"
  "resend_error_response m \<noteq> missing_fields_response"
  "success_response \<noteq> missing_fields_response"
  by (simp_all add: caught_response_def resend_error_response_def success_response_def
      missing_fields_response_def Let_def)

lemma member_values_json:
  "member (values_json v) FullName = Some (JStr (fullName v))"
  "member (values_json v) PhoneNumber = Some (JStr (phoneNumber v))"
  "member (values_json v) Email = Some (JStr (email v))"
  "member (values_json v) StoreUrl = Some (JStr (storeUrl v))"
  "member (values_json v) RevenueStream = Some (JStr (revenueStream v))"
  "member (values_json v) Message = Some (JStr (message v))"
  by (simp_all add: member_def values_json_def field_name_def js_def cu_def)

lemma read_payload_values_json:
  "read_payload (values_json v) =
    Inr \<lparr>fullName = trim (fullName v), phoneNumber = trim (phoneNumber v),
         email = trim (email v), storeUrl = trim (storeUrl v),
         revenueStream = trim (revenueStream v), message = trim (message v)\<rparr>"
proof -
  have "read_property (values_json v) f = Inr (member (values_json v) f)" for f
    by (simp add: read_property_def values_json_def)
  then show ?thesis
    by (simp add: read_payload_def and_then_def trimmed_field_def member_values_json)
qed

lemma handle_request_accepted:
  assumes "read_payload body = Inr v"
    and "fullName v \<noteq> []" and "phoneNumber v \<noteq> []" and "email v \<noteq> []"
    and "revenueStream v \<noteq> []"
  shows "handle_request key (BodyJson body) relay =
    (case relay (lead_email key v) of
       SendThrows t \<Rightarrow> (caught_response t, [lead_email key v])
     | SendError m \<Rightarrow> (resend_error_response m, [lead_email key v])
     | SendOk \<Rightarrow> (success_response, [lead_email key v]))"
  using assms by (simp add: handle_request_def Let_def)

lemma example_lead_trimmed:
  "\<lparr>fullName = trim (fullName example_lead),
    phoneNumber = trim (phoneNumber example_lead), email = trim (email example_lead),
    storeUrl = trim (storeUrl example_lead), revenueStream = trim (revenueStream example_lead),
    message = trim (message example_lead)\<rparr> = example_lead"
  by (simp add: example_lead_def eval_strings)

lemma example_lead_accepted:
  "handle_request key (BodyJson (values_json example_lead)) relay =
    (case relay (lead_email key example_lead) of
       SendThrows t \<Rightarrow> (caught_response t, [lead_email key example_lead])
     | SendError m \<Rightarrow> (resend_error_response m, [lead_email key example_lead])
     | SendOk \<Rightarrow> (success_response, [lead_email key example_lead]))"
proof (rule handle_request_accepted)
  show "read_payload (values_json example_lead) = Inr example_lead"
    by (simp only: read_payload_values_json example_lead_trimmed)
qed (simp_all add: example_lead_def js_def)

lemma example_env_key: "POST example_env request relay = handle_request (js ''re_test_key'') request relay"
  by (simp add: POST_def resendApiKey_def example_env_def js_def)

text \<open>
  C3, as the code has it. With the credential configured and a body that parses to a JSON
  value of the shape of \<^verbatim>\<open>LeadPayload\<close> (not \<^verbatim>\<open>null\<close>; each of the six fields
  absent, \<^verbatim>\<open>null\<close> or a string), the handler answers 400 with
  \<^verbatim>\<open>Missing required fields.\<close> exactly when one of the full name, phone number,
  email and revenue stream is absent, \<^verbatim>\<open>null\<close> or empty after trimming. Otherwise it
  calls the relay once with the mail built from the trimmed fields: nothing tests the
  digit count of the phone number or the shape of the email or of the store URL.
\<close>

theorem POST_missing_fields_iff:
  assumes "resendApiKey e = Some key" and "key \<noteq> []" and "payload_typed body"
  shows "(fst (POST e (BodyJson body) relay) = missing_fields_response
            \<longleftrightarrow> (\<exists>f \<in> set required_fields. absent_or_blank body f))
    \<and> ((\<forall>f \<in> set required_fields. \<not> absent_or_blank body f) \<longrightarrow>
          (\<exists>v. read_payload body = Inr v
             \<and> snd (POST e (BodyJson body) relay) = [lead_email key v]))"
proof -
  let ?v = "\<lparr>fullName = field_text body FullName, phoneNumber = field_text body PhoneNumber,
         email = field_text body Email, storeUrl = field_text body StoreUrl,
         revenueStream = field_text body RevenueStream, message = field_text body Message\<rparr>"
  have rp: "read_payload body = Inr ?v"
    using assms(3) by (rule read_payload_typed)
  have blank: "(\<exists>f \<in> set required_fields. absent_or_blank body f) \<longleftrightarrow>
      (fullName ?v = [] \<or> phoneNumber ?v = [] \<or> email ?v = [] \<or> revenueStream ?v = [])"
    using assms(3) by (simp add: required_fields_def absent_or_blank_typed all_fields_def)
  have post: "POST e (BodyJson body) relay = handle_request key (BodyJson body) relay"
    using assms(1,2) by (simp add: POST_def)
  show ?thesis
  proof (cases "fullName ?v = [] \<or> phoneNumber ?v = [] \<or> email ?v = [] \<or> revenueStream ?v = []")
    case True
    then have "handle_request key (BodyJson body) relay = (missing_fields_response, [])"
      by (simp add: handle_request_def rp)
    with True blank post show ?thesis by simp
  next
    case False
    then have "fst (handle_request key (BodyJson body) relay) \<noteq> missing_fields_response"
      and "snd (handle_request key (BodyJson body) relay) = [lead_email key ?v]"
      by (simp_all add: handle_request_def rp Let_def response_distinct split: relay_result.splits)
    with False blank post rp show ?thesis by simp
  qed
qed

text \<open>
  An instance: a body whose phone number has two digits, whose email has no \<^verbatim>\<open>@\<close> and
  whose store URL is not an \<^verbatim>\<open>http\<close> URL reaches the relay and is answered 200; a body
  whose full name is white space is answered 400.
\<close>

theorem POST_missing_fields_iff_witness:
  "resendApiKey example_env = Some (js ''re_test_key'') \<and> payload_typed malformed_body
   \<and> \<not> isFormReady malformed_values
   \<and> length (getPhoneDigits (phoneNumber malformed_values)) = 2
   \<and> \<not> isValidEmail (email malformed_values)
   \<and> \<not> isValidStoreUrl (storeUrl malformed_values)
   \<and> read_payload malformed_body = Inr malformed_values
   \<and> fst (POST example_env (BodyJson malformed_body) (relay_const SendOk)) = success_response
   \<and> snd (POST example_env (BodyJson malformed_body) (relay_const SendOk))
       = [lead_email (js ''re_test_key'') malformed_values]
   \<and> payload_typed (JObj [(js ''fullName'', JStr (js ''  ''))])
   \<and> fst (POST example_env (BodyJson (JObj [(js ''fullName'', JStr (js ''  ''))]))
         (relay_const SendOk)) = missing_fields_response"
  using POST_missing_fields_iff [of example_env "js ''re_test_key''" malformed_body
      "relay_const SendOk"]
    POST_missing_fields_iff [of example_env "js ''re_test_key''"
      "JObj [(js ''fullName'', JStr (js ''  ''))]" "relay_const SendOk"]
  by (simp add: eval_server eval_strings eval_client malformed_body_def malformed_values_def
      payload_typed_def all_fields_def text_or_missing_def required_fields_def)

text \<open>
  Without the restriction to bodies of that shape the equivalence fails. A body that
  parses as JSON, has no revenue stream and carries the phone number as a number is
  answered 500, not 400: \<^verbatim>\<open>trim\<close> is not a function of a number, and the
  \<^verbatim>\<open>TypeError\<close> reaches the \<^verbatim>\<open>catch\<close> clause before the required-field check
  runs. The body \<^verbatim>\<open>null\<close>, which has no field at all, is answered 500 as well.
\<close>

theorem POST_untyped_body_counterexample:
  "resendApiKey example_env = Some (js ''re_test_key'')
   \<and> absent_or_blank numeric_phone_body RevenueStream
   \<and> fst (POST example_env (BodyJson numeric_phone_body) (relay_const SendOk))
       = caught_response (ErrorObj (EngineText (NotAFunction PhoneNumber)))
   \<and> http_status (fst (POST example_env (BodyJson numeric_phone_body) (relay_const SendOk))) = 500
   \<and> absent_or_blank JNull FullName
   \<and> http_status (fst (POST example_env (BodyJson JNull) (relay_const SendOk))) = 500"
  by (simp add: eval_server eval_strings numeric_phone_body_def)

text \<open>
  C4. When no relay key is configured (both environment variables absent or empty), the
  handler answers 500 with the fixed configuration message and never calls the relay,
  whatever the request body is and whether or not it can be parsed: the check comes
  before the body is read.
\<close>

theorem POST_not_configured:
  assumes "unset (RESEND_API_KEY e)" and "unset (NEXT_PUBLIC_RESEND_API_KEY e)"
  shows "POST e request relay = (not_configured_response, [])
    \<and> http_status (fst (POST e request relay)) = 500"
  using assms
  by (auto simp: POST_def resendApiKey_def unset_def not_configured_response_def)

theorem POST_not_configured_witness:
  "unset (RESEND_API_KEY no_key_env) \<and> unset (NEXT_PUBLIC_RESEND_API_KEY no_key_env)
   \<and> POST no_key_env (BodyThrows NonError) (relay_const SendOk) = (not_configured_response, [])
   \<and> POST no_key_env (BodyJson JNull) (relay_const SendOk) = (not_configured_response, [])
   \<and> POST no_key_env (BodyJson (values_json example_lead)) (relay_const SendOk)
       = (not_configured_response, [])"
  using POST_not_configured [of no_key_env "BodyThrows NonError" "relay_const SendOk"]
    POST_not_configured [of no_key_env "BodyJson JNull" "relay_const SendOk"]
    POST_not_configured [of no_key_env "BodyJson (values_json example_lead)" "relay_const SendOk"]
  by (simp add: no_key_env_def unset_def)

text \<open>
  C10. The configuration check takes the key from \<^verbatim>\<open>RESEND_API_KEY\<close> when that is
  not empty, and otherwise from \<^verbatim>\<open>NEXT_PUBLIC_RESEND_API_KEY\<close>. The configuration
  response of the check is given only when both are absent or empty; with a key under
  either name the handler goes on with that key.
\<close>

theorem POST_key_either:
  "(unset (RESEND_API_KEY e) \<and> unset (NEXT_PUBLIC_RESEND_API_KEY e) \<longrightarrow>
      POST e request relay = (not_configured_response, []))
   \<and> (\<not> unset (RESEND_API_KEY e) \<longrightarrow>
      (\<exists>k. RESEND_API_KEY e = Some k \<and> k \<noteq> []
         \<and> POST e request relay = handle_request k request relay))
   \<and> (unset (RESEND_API_KEY e) \<and> \<not> unset (NEXT_PUBLIC_RESEND_API_KEY e) \<longrightarrow>
      (\<exists>k. NEXT_PUBLIC_RESEND_API_KEY e = Some k \<and> k \<noteq> []
         \<and> POST e request relay = handle_request k request relay))"
  by (auto simp: POST_def resendApiKey_def unset_def split: option.splits)

theorem POST_key_either_witness:
  "unset (RESEND_API_KEY public_key_env) \<and> \<not> unset (NEXT_PUBLIC_RESEND_API_KEY public_key_env)
   \<and> POST public_key_env (BodyJson (values_json example_lead)) (relay_const SendOk)
       = (success_response, [lead_email (js ''re_public_key'') example_lead])
   \<and> \<not> unset (RESEND_API_KEY example_env)
   \<and> POST example_env (BodyJson (values_json example_lead)) (relay_const SendOk)
       = (success_response, [lead_email (js ''re_test_key'') example_lead])
   \<and> POST no_key_env (BodyJson (values_json example_lead)) (relay_const SendOk)
       = (not_configured_response, [])"
  using POST_key_either [of public_key_env "BodyJson (values_json example_lead)"
      "relay_const SendOk"]
    POST_key_either [of example_env "BodyJson (values_json example_lead)" "relay_const SendOk"]
    POST_key_either [of no_key_env "BodyJson (values_json example_lead)" "relay_const SendOk"]
  by (simp add: example_lead_accepted relay_const_def public_key_env_def example_env_def
      no_key_env_def unset_def js_def)

text \<open>
  C5. When the relay was called and reported a send error, the handler answers 502 with
  the error \<^verbatim>\<open>Resend error: \<close> followed by the provider's message when that is a
  non-empty string, and by \<^verbatim>\<open>Unable to send email.\<close> otherwise.
\<close>

theorem POST_relay_error:
  assumes "snd (POST e request relay) = [mail]" and "relay mail = SendError m"
  shows "fst (POST e request relay) =
    \<lparr>http_status = 502,
     http_body = ErrorBody (Text (js ''Resend error: '' @
       (case m of
          Some s \<Rightarrow> if s \<noteq> [] then s else js ''Unable to send email.''
        | None \<Rightarrow> js ''Unable to send email.'')))\<rparr>"
proof -
  from assms(1) obtain key where post: "POST e request relay = handle_request key request relay"
    by (auto simp: POST_def split: option.splits if_splits)
  from assms(1) post obtain body v where
    rq: "request = BodyJson body" and rp: "read_payload body = Inr v"
    and ok: "\<not> (fullName v = [] \<or> phoneNumber v = [] \<or> email v = [] \<or> revenueStream v = [])"
    by (auto simp: handle_request_def split: body_result.splits sum.splits if_splits)
  from assms(1) post rq rp ok have "mail = lead_email key v"
    by (auto simp: handle_request_def Let_def split: relay_result.splits)
  with assms(2) post rq rp ok show ?thesis
    by (auto simp: handle_request_def Let_def resend_error_response_def split: option.splits)
qed

theorem POST_relay_error_witness:
  "snd (POST example_env (BodyJson (values_json example_lead))
          (relay_const (SendError (Some (js ''quota exceeded'')))))
     = [lead_email (js ''re_test_key'') example_lead]
   \<and> fst (POST example_env (BodyJson (values_json example_lead))
          (relay_const (SendError (Some (js ''quota exceeded'')))))
     = \<lparr>http_status = 502, http_body = ErrorBody (Text (js ''Resend error: quota exceeded''))\<rparr>
   \<and> fst (POST example_env (BodyJson (values_json example_lead))
          (relay_const (SendError None)))
     = \<lparr>http_status = 502, http_body = ErrorBody (Text (js ''Resend error: Unable to send email.''))\<rparr>"
proof -
  have sent: "snd (POST example_env (BodyJson (values_json example_lead)) (relay_const r))
      = [lead_email (js ''re_test_key'') example_lead]" for r
    by (cases r) (simp_all add: example_env_key example_lead_accepted relay_const_def)
  show ?thesis
    using POST_relay_error [OF sent [of "SendError (Some (js ''quota exceeded''))"],
        of "Some (js ''quota exceeded'')"]
      POST_relay_error [OF sent [of "SendError None"], of None]
    by (simp add: sent relay_const_def js_def)
qed

section \<open>Properties of the submission client\<close>

lemma ready_required:
  assumes "isFormReady v"
  shows "trim (fullName v) \<noteq> []" "trim (phoneNumber v) \<noteq> []" "trim (email v) \<noteq> []"
    "trim (revenueStream v) \<noteq> []"
proof -
  from assms show "trim (fullName v) \<noteq> []" and "trim (revenueStream v) \<noteq> []"
    by (simp_all add: isFormReady_def)
  from assms have "length (getPhoneDigits (phoneNumber v)) = 10"
    by (simp add: isFormReady_def)
  then show "trim (phoneNumber v) \<noteq> []"
    using getPhoneDigits_blank [of "phoneNumber v"] by auto
  from assms have "isValidEmail (email v)"
    by (simp add: isFormReady_def)
  then show "trim (email v) \<noteq> []"
    using isValidEmail_blank by blast
qed

lemma filled_form_values:
  "values filled_form = example_lead\<lparr>storeUrl := []\<rparr>"
  by (simp add: filled_form_def handleChange_def initial_form_state_def initialFormValues_def
      example_lead_def formatPhoneNumber_def getPhoneDigits_def eval_strings)

lemma filled_form_ready: "isFormReady (values filled_form)"
  by (simp add: filled_form_values example_lead_def eval_client eval_strings)

text \<open>
  C6. Round trip. From a form whose values are ready, \<^verbatim>\<open>handleSubmit\<close> sends exactly
  these values; with a configured key and a relay that reports success the handler
  answers 200 with \<^verbatim>\<open>{success: true}\<close>; and on every response with a success status
  the client marks the form as submitted, resets all six fields to their initial empty
  values and clears the submitting flag.
\<close>

theorem round_trip_success:
  assumes "isFormReady (values st)"
    and "resendApiKey e = Some key" and "key \<noteq> []"
    and "\<forall>mail. relay mail = SendOk"
  shows "snd (handleSubmit_start st) = Some (values st)
    \<and> fst (POST e (BodyJson (values_json (values st))) relay)
        = \<lparr>http_status = 200, http_body = SuccessBody\<rparr>
    \<and> (\<forall>st' r. response_ok r \<longrightarrow>
          submitted (handleSubmit_settle st' (Responded r))
          \<and> values (handleSubmit_settle st' (Responded r)) = initialFormValues
          \<and> \<not> isSubmitting (handleSubmit_settle st' (Responded r))
          \<and> submitError (handleSubmit_settle st' (Responded r)) = submitError st')"
proof -
  let ?v = "values st"
  have start: "snd (handleSubmit_start st) = Some ?v"
    using validateForm_of_ready [OF assms(1)] by (simp add: handleSubmit_start_def)
  have "handle_request key (BodyJson (values_json ?v)) relay = (success_response,
      [lead_email key \<lparr>fullName = trim (fullName ?v), phoneNumber = trim (phoneNumber ?v),
         email = trim (email ?v), storeUrl = trim (storeUrl ?v),
         revenueStream = trim (revenueStream ?v), message = trim (message ?v)\<rparr>])"
    using ready_required [OF assms(1)] assms(4)
    by (simp add: handle_request_accepted [OF read_payload_values_json])
  then have server: "fst (POST e (BodyJson (values_json ?v)) relay)
      = \<lparr>http_status = 200, http_body = SuccessBody\<rparr>"
    using assms(2,3) by (simp add: POST_def success_response_def)
  have client: "submitted (handleSubmit_settle st' (Responded r))
      \<and> values (handleSubmit_settle st' (Responded r)) = initialFormValues
      \<and> \<not> isSubmitting (handleSubmit_settle st' (Responded r))
      \<and> submitError (handleSubmit_settle st' (Responded r)) = submitError st'"
    if "response_ok r" for st' r
    using that by (simp add: handleSubmit_settle_def)
  from start server client show ?thesis by blast
qed

theorem round_trip_success_witness:
  "isFormReady (values filled_form)
   \<and> resendApiKey example_env = Some (js ''re_test_key'')
   \<and> snd (handleSubmit_start filled_form) = Some (values filled_form)
   \<and> fst (POST example_env (BodyJson (values_json (values filled_form))) (relay_const SendOk))
       = \<lparr>http_status = 200, http_body = SuccessBody\<rparr>
   \<and> response_ok \<lparr>status = 200, payload = Some None\<rparr>
   \<and> submitted (handleSubmit_settle submitting_form (Responded \<lparr>status = 200, payload = Some None\<rparr>))
   \<and> values (handleSubmit_settle submitting_form (Responded \<lparr>status = 200, payload = Some None\<rparr>))
       = initialFormValues"
proof -
  have key: "resendApiKey example_env = Some (js ''re_test_key'')"
    by (simp add: resendApiKey_def example_env_def js_def)
  have ne: "js ''re_test_key'' \<noteq> []"
    by (simp add: js_def)
  have relay: "\<forall>mail. relay_const SendOk mail = SendOk"
    by (simp add: relay_const_def)
  have ok: "response_ok \<lparr>status = 200, payload = Some None\<rparr>"
    by (simp add: response_ok_def)
  show ?thesis
    using round_trip_success [OF filled_form_ready key ne relay] filled_form_ready key ok
    by blast
qed

text \<open>
  C7, as the code has it. On a response without a success status the form shows the
  \<^verbatim>\<open>error\<close> text of the payload when there is one and it is not empty, and
  \<^verbatim>\<open>Request failed\<close> otherwise. When \<^verbatim>\<open>fetch\<close> rejects, the form shows the
  message of the rejection value when that is an \<^verbatim>\<open>Error\<close>, and the generic
  \<^verbatim>\<open>Something went wrong. Please try again in a moment.\<close> only when it is not. In both
  cases the form is not marked as submitted and keeps its values.
\<close>

theorem handleSubmit_failure_message:
  "(\<not> response_ok r \<longrightarrow>
      submitError (handleSubmit_settle st (Responded r))
        = Some (case payload r of
                  Some (Some e) \<Rightarrow> if e \<noteq> [] then e else js ''Request failed''
                | _ \<Rightarrow> js ''Request failed'')
      \<and> submitted (handleSubmit_settle st (Responded r)) = submitted st
      \<and> values (handleSubmit_settle st (Responded r)) = values st)
   \<and> submitError (handleSubmit_settle st (Rejected (ErrorObj m))) = Some m
   \<and> submitError (handleSubmit_settle st (Rejected NonError))
        = Some (js ''Something went wrong. Please try again in a moment.'')
   \<and> submitted (handleSubmit_settle st (Rejected t)) = submitted st
   \<and> values (handleSubmit_settle st (Rejected t)) = values st"
  by (simp add: handleSubmit_settle_def catch_message_def request_failed_message_def
      split: option.splits)

theorem handleSubmit_failure_message_witness:
  "\<not> response_ok \<lparr>status = 400, payload = Some (Some (js ''Missing required fields.''))\<rparr>
   \<and> submitError (handleSubmit_settle submitting_form
        (Responded \<lparr>status = 400, payload = Some (Some (js ''Missing required fields.''))\<rparr>))
       = Some (js ''Missing required fields.'')
   \<and> \<not> response_ok \<lparr>status = 502, payload = None\<rparr>
   \<and> submitError (handleSubmit_settle submitting_form (Responded \<lparr>status = 502, payload = None\<rparr>))
       = Some (js ''Request failed'')"
  using handleSubmit_failure_message [of
      "\<lparr>status = 400, payload = Some (Some (js ''Missing required fields.''))\<rparr>" submitting_form]
    handleSubmit_failure_message [of "\<lparr>status = 502, payload = None\<rparr>" submitting_form]
  by (simp add: response_ok_def js_def)

text \<open>
  A transport failure does not always give the generic message: \<^verbatim>\<open>fetch\<close> rejects
  with a \<^verbatim>\<open>TypeError\<close> on a network failure, which is an \<^verbatim>\<open>Error\<close>, and the form
  shows its message.
\<close>

theorem transport_failure_counterexample:
  "submitError (handleSubmit_settle submitting_form (Rejected (ErrorObj (js ''Failed to fetch''))))
     = Some (js ''Failed to fetch'')
   \<and> submitError (handleSubmit_settle submitting_form (Rejected (ErrorObj (js ''Failed to fetch''))))
     \<noteq> Some (js ''Something went wrong. Please try again in a moment.'')"
  by (simp add: handleSubmit_settle_def catch_message_def js_def cu_def)

lemma handleChange_isSubmitting: "isSubmitting (handleChange key val st) = isSubmitting st"
  by (simp add: handleChange_def Let_def)

lemma handleChange_submitted: "submitted (handleChange key val st) = submitted st"
  by (simp add: handleChange_def Let_def)

lemma handleSubmit_start_flag:
  assumes "handleSubmit_start st = (st', req)"
  shows "isSubmitting st' = (if req = None then isSubmitting st else True)"
  using assms by (auto simp: handleSubmit_start_def Let_def split: if_splits)

lemma handleSubmit_settle_flag: "\<not> isSubmitting (handleSubmit_settle st outcome)"
  by (simp add: handleSubmit_settle_def Let_def)

lemma guard_step:
  assumes "ui_step s s'"
    and "in_flight s \<le> 1" and "in_flight s = 1 \<longleftrightarrow> isSubmitting (form s)"
  shows "in_flight s' \<le> 1 \<and> (in_flight s' = 1 \<longleftrightarrow> isSubmitting (form s'))"
  using assms
proof (cases rule: ui_step.cases)
  case (change key val)
  with assms(2,3) show ?thesis
    by (simp add: handleChange_isSubmitting)
next
  case (submit st' req)
  from submit(3) have idle: "\<not> isSubmitting (form s)"
    by (simp add: submit_disabled_def)
  with assms(2,3) have "in_flight s = 0" by auto
  with submit(1) idle handleSubmit_start_flag [OF submit(4)] show ?thesis
    by simp
next
  case (settle outcome)
  with assms(2) have "in_flight s = 1" by simp
  with settle(1) show ?thesis
    by (simp add: handleSubmit_settle_flag)
qed

lemma guard_invariant:
  assumes "reachable s"
  shows "in_flight s \<le> 1 \<and> (in_flight s = 1 \<longleftrightarrow> isSubmitting (form s))"
  using assms
proof (induction rule: reachable.induct)
  case init
  show ?case by (simp add: initial_ui_def initial_form_state_def)
next
  case (step s s')
  then show ?case using guard_step by blast
qed

lemma change_reachable:
  assumes "reachable \<lparr>form = st, in_flight = n\<rparr>" and "\<not> submitted st"
  shows "reachable \<lparr>form = handleChange key val st, in_flight = n\<rparr>"
proof -
  have "ui_step \<lparr>form = st, in_flight = n\<rparr>
      (\<lparr>form = st, in_flight = n\<rparr>\<lparr>form := handleChange key val (form \<lparr>form = st, in_flight = n\<rparr>)\<rparr>)"
    by (rule ui_step.change) (simp add: assms(2))
  then have "ui_step \<lparr>form = st, in_flight = n\<rparr> \<lparr>form = handleChange key val st, in_flight = n\<rparr>"
    by simp
  with assms(1) show ?thesis by (rule reachable.step)
qed

lemma filled_reachable: "reachable filled_ui"
proof -
  have "reachable \<lparr>form = initial_form_state, in_flight = 0\<rparr>"
    using reachable.init by (simp add: initial_ui_def)
  moreover have "\<not> submitted initial_form_state"
    by (simp add: initial_form_state_def)
  ultimately show ?thesis
    unfolding filled_ui_def filled_form_def
    by (intro change_reachable) (simp_all add: handleChange_submitted)
qed

lemma submitting_reachable: "reachable submitting_ui"
proof -
  have start: "handleSubmit_start filled_form = (submitting_form, Some (values filled_form))"
    using validateForm_of_ready [OF filled_form_ready]
    by (simp add: submitting_form_def handleSubmit_start_def)
  have sub: "\<not> submitted filled_form"
    by (simp add: filled_form_def handleChange_submitted initial_form_state_def)
  have idle: "\<not> isSubmitting filled_form"
    by (simp add: filled_form_def handleChange_isSubmitting initial_form_state_def)
  have "ui_step filled_ui
      \<lparr>form = submitting_form,
       in_flight = in_flight filled_ui + (if Some (values filled_form) = None then 0 else 1)\<rparr>"
    by (rule ui_step.submit)
      (simp_all add: filled_ui_def sub idle submit_disabled_def filled_form_ready start)
  then have "ui_step filled_ui submitting_ui"
    by (simp add: submitting_ui_def filled_ui_def)
  with filled_reachable show ?thesis by (rule reachable.step)
qed

lemma submitting_form_facts:
  "values submitting_form = values filled_form" "\<not> submitted submitting_form"
  by (simp_all add: submitting_form_def handleSubmit_start_def Let_def filled_form_def
      handleChange_submitted initial_form_state_def)

text \<open>
  C8, as the code has it. The double-submit guard. In every reachable state at most one
  request is in flight, and one is in flight exactly when the submitting flag is set; the
  submit button is disabled whenever the flag is set, so no step issues a second request
  while one is in flight. \<^verbatim>\<open>handleSubmit\<close> sets the flag whenever it issues a request,
  and clears it on every outcome. After an error response or a rejected \<^verbatim>\<open>fetch\<close> the
  values are unchanged and the form can be submitted again exactly when it is still
  rendered and its values are ready. After a success the form is marked as submitted, its
  values are reset and it cannot be submitted again.
\<close>

theorem submit_guard:
  assumes "reachable s"
  shows "in_flight s \<le> 1
    \<and> (in_flight s = 1 \<longleftrightarrow> isSubmitting (form s))
    \<and> (isSubmitting (form s) \<longrightarrow> submit_disabled (form s) \<and> \<not> submittable (form s))
    \<and> (\<forall>s'. in_flight s = 1 \<and> ui_step s s' \<longrightarrow> in_flight s' \<le> in_flight s)
    \<and> (\<forall>st st' body. handleSubmit_start st = (st', Some body) \<longrightarrow> isSubmitting st')
    \<and> (\<forall>st outcome. \<not> isSubmitting (handleSubmit_settle st outcome))
    \<and> (\<forall>st r. \<not> response_ok r \<longrightarrow>
          values (handleSubmit_settle st (Responded r)) = values st
          \<and> (submittable (handleSubmit_settle st (Responded r))
               \<longleftrightarrow> \<not> submitted st \<and> isFormReady (values st)))
    \<and> (\<forall>st t.
          values (handleSubmit_settle st (Rejected t)) = values st
          \<and> (submittable (handleSubmit_settle st (Rejected t))
               \<longleftrightarrow> \<not> submitted st \<and> isFormReady (values st)))
    \<and> (\<forall>st r. response_ok r \<longrightarrow>
          submitted (handleSubmit_settle st (Responded r))
          \<and> submit_disabled (handleSubmit_settle st (Responded r))
          \<and> \<not> submittable (handleSubmit_settle st (Responded r)))"
proof -
  have inv: "in_flight s \<le> 1 \<and> (in_flight s = 1 \<longleftrightarrow> isSubmitting (form s))"
    using assms by (rule guard_invariant)
  have dis: "isSubmitting (form s) \<longrightarrow> submit_disabled (form s) \<and> \<not> submittable (form s)"
    by (simp add: submit_disabled_def submittable_def)
  have nxt: "in_flight s' \<le> in_flight s" if "in_flight s = 1" "ui_step s s'" for s'
    using guard_step [OF that(2)] inv that(1) by simp
  have set: "isSubmitting st'" if "handleSubmit_start st = (st', Some body)" for st st' body
    using handleSubmit_start_flag [OF that] by simp
  have reset: "\<not> isSubmitting (handleSubmit_settle st outcome)" for st outcome
    by (rule handleSubmit_settle_flag)
  have failed: "values (handleSubmit_settle st (Responded r)) = values st
      \<and> (submittable (handleSubmit_settle st (Responded r))
           \<longleftrightarrow> \<not> submitted st \<and> isFormReady (values st))"
    if "\<not> response_ok r" for st r
    using that by (simp add: handleSubmit_settle_def submittable_def submit_disabled_def)
  have rejected: "values (handleSubmit_settle st (Rejected t)) = values st
      \<and> (submittable (handleSubmit_settle st (Rejected t))
           \<longleftrightarrow> \<not> submitted st \<and> isFormReady (values st))" for st t
    by (simp add: handleSubmit_settle_def submittable_def submit_disabled_def)
  have succeeded: "submitted (handleSubmit_settle st (Responded r))
      \<and> submit_disabled (handleSubmit_settle st (Responded r))
      \<and> \<not> submittable (handleSubmit_settle st (Responded r))"
    if "response_ok r" for st r
    using that initial_not_ready
    by (simp add: handleSubmit_settle_def submittable_def submit_disabled_def)
  from inv dis nxt set reset failed rejected succeeded show ?thesis by blast
qed

theorem submit_guard_witness:
  "reachable submitting_ui \<and> in_flight submitting_ui = 1
   \<and> isSubmitting (form submitting_ui) \<and> submit_disabled (form submitting_ui)
   \<and> \<not> isSubmitting (handleSubmit_settle (form submitting_ui) (Rejected NonError))
   \<and> submittable (handleSubmit_settle (form submitting_ui) (Rejected NonError))
   \<and> submittable (handleSubmit_settle (form submitting_ui)
        (Responded \<lparr>status = 502, payload = None\<rparr>))
   \<and> \<not> submittable (handleSubmit_settle (form submitting_ui)
        (Responded \<lparr>status = 200, payload = Some None\<rparr>))"
proof -
  have n: "in_flight submitting_ui = 1" and f: "form submitting_ui = submitting_form"
    by (simp_all add: submitting_ui_def)
  have ok: "response_ok \<lparr>status = 200, payload = Some None\<rparr>"
    and bad: "\<not> response_ok \<lparr>status = 502, payload = None\<rparr>"
    by (simp_all add: response_ok_def)
  show ?thesis
    using submit_guard [OF submitting_reachable] submitting_reachable n f ok bad
      filled_form_ready submitting_form_facts
    by simp
qed

text \<open>
  The reset of the flag does not return the form to a submittable state on every outcome:
  from the reachable state with one request in flight, a response with status 200 leaves
  the flag cleared, the form marked as submitted and the submit button disabled.
\<close>

theorem settle_success_counterexample:
  "reachable submitting_ui \<and> in_flight submitting_ui = 1
   \<and> response_ok \<lparr>status = 200, payload = Some None\<rparr>
   \<and> \<not> isSubmitting (handleSubmit_settle (form submitting_ui)
        (Responded \<lparr>status = 200, payload = Some None\<rparr>))
   \<and> submitted (handleSubmit_settle (form submitting_ui)
        (Responded \<lparr>status = 200, payload = Some None\<rparr>))
   \<and> submit_disabled (handleSubmit_settle (form submitting_ui)
        (Responded \<lparr>status = 200, payload = Some None\<rparr>))
   \<and> \<not> submittable (handleSubmit_settle (form submitting_ui)
        (Responded \<lparr>status = 200, payload = Some None\<rparr>))"
  using submitting_reachable initial_not_ready
  by (simp add: submitting_ui_def response_ok_def handleSubmit_settle_def submittable_def
      submit_disabled_def)

end
